theory Spec2Isabelle
  imports Main "HOL-Library.Word"
begin

section \<open>Data model of \<^verbatim>\<open>Logger.h\<close>\<close>

text \<open>
  \<^verbatim>\<open>enum class Loglevel : uint8_t { err = 1, info = 2, debug = 3 }\<close>: the enumeration is
  backed by a byte, and \<^verbatim>\<open>static_cast\<close> lets every byte value through, so a level is an
  8-bit word and the three enumerators are constants of that type.
\<close>

type_synonym u8 = "8 word"
type_synonym Loglevel = u8

definition Loglevel_err :: Loglevel where
  "Loglevel_err = 1"

definition Loglevel_info :: Loglevel where
  "Loglevel_info = 2"

definition Loglevel_debug :: Loglevel where
  "Loglevel_debug = 3"

text \<open>
  The buffer size is the default of the header (which lets a build override it), and the
  three labels are its static strings.
\<close>

definition LOG_BUFFER_SIZE :: nat where
  "LOG_BUFFER_SIZE = 255"

definition logError :: string where
  "logError = ''ERROR''"

definition logInfo :: string where
  "logInfo = ''INFO''"

definition logDebug :: string where
  "logDebug = ''DEBUG''"

text \<open>
  Modelled from the spec: the class template \<^verbatim>\<open>Callback\<close> of \<^verbatim>\<open>Callback.h\<close> is not part of
  the sources. The spec calls the handler an optional callable whose validity is checked
  before it is called, and the constructor's comment in \<^verbatim>\<open>Logger.h\<close> says that a fresh logger
  has no callback. So a \<^verbatim>\<open>loggerCallback\<close> is \<open>None\<close> when it is unset (as the
  default-constructed member is) and \<open>Some h\<close> when it is bound to the handler \<open>h\<close>;
  \<^verbatim>\<open>valid()\<close> tells the two apart.
\<close>

type_synonym loggerCallback = "nat option"

definition valid :: "loggerCallback \<Rightarrow> bool" where
  "valid ev = (ev \<noteq> None)"

text \<open>
  The private members of \<^verbatim>\<open>class Logger\<close>. \<^verbatim>\<open>Stream *_strm\<close> is \<open>None\<close> for
  \<^verbatim>\<open>nullptr\<close> and \<open>Some a\<close> for the stream at address \<open>a\<close>.
\<close>

record Logger =
  m_logLevel :: u8
  m_enabled :: u8
  m_strm :: "nat option"
  m_logEvent :: loggerCallback

text \<open>
  What the two destinations receive. \<open>Println a l\<close> is the call \<^verbatim>\<open>println(l)\<close> on the
  stream at \<open>a\<close> (the stream appends the line terminator itself); \<open>Invoke h n lab f m\<close> is
  the call of handler \<open>h\<close> with its four arguments. Streams and handlers are sinks: they
  are not given access to the logger. The calls made so far are kept in a list, oldest
  first.
\<close>

datatype event =
    Println nat string
  | Invoke nat u8 string string string

text \<open>
  The ways in which the body of \<^verbatim>\<open>log\<close> can leave defined behaviour: a write or read
  past the end of \<^verbatim>\<open>_buf\<close>, and a read of a variable or byte that was never assigned.
\<close>

datatype fault = Out_of_bounds | Indeterminate_read

definition fbind :: "fault + 'a \<Rightarrow> ('a \<Rightarrow> fault + 'b) \<Rightarrow> fault + 'b" where
  "fbind r f = (case r of Inl e \<Rightarrow> Inl e | Inr x \<Rightarrow> f x)"

section \<open>The character buffer and the C library calls on it\<close>

text \<open>
  \<^verbatim>\<open>char _buf[LOG_BUFFER_SIZE]\<close> is a local array without initializer: each byte is
  \<open>None\<close> until something is stored in it.
\<close>

type_synonym buffer = "char option list"

definition NUL :: char where
  "NUL = CHR 0x00"

definition strcpy :: "buffer \<Rightarrow> string \<Rightarrow> fault + buffer" where
  "strcpy dst src =
     (if length src < length dst
      then Inr (map Some src @ Some NUL # drop (Suc (length src)) dst)
      else Inl Out_of_bounds)"

definition store :: "buffer \<Rightarrow> nat \<Rightarrow> char \<Rightarrow> fault + buffer" where
  "store b i c = (if i < length b then Inr (b[i := Some c]) else Inl Out_of_bounds)"

text \<open>
  Reading the C string that starts at the head of a buffer, as \<^verbatim>\<open>println\<close> and a handler
  do with the pointer they are given: the bytes before the first NUL.
\<close>

fun c_str :: "buffer \<Rightarrow> fault + string" where
  "c_str [] = Inl Out_of_bounds"
| "c_str (None # b) = Inl Indeterminate_read"
| "c_str (Some c # b) =
     (if c = NUL then Inr [] else fbind (c_str b) (\<lambda>t. Inr (c # t)))"

text \<open>
  The platform's formatter is a parameter \<open>P\<close>: \<open>P s args\<close> is the complete text that
  the \<^verbatim>\<open>printf\<close> family produces for format \<open>s\<close> and argument list \<open>args\<close>.
  \<^verbatim>\<open>vsnprintf(&buf[off], n, s, args)\<close> stores at most \<open>n - 1\<close> characters of it, followed
  by a NUL, and stores nothing when \<open>n = 0\<close>.
\<close>

type_synonym 'a formatter = "string \<Rightarrow> 'a \<Rightarrow> string"

definition vsnprintf ::
  "'a formatter \<Rightarrow> buffer \<Rightarrow> nat \<Rightarrow> nat \<Rightarrow> string \<Rightarrow> 'a \<Rightarrow> fault + buffer" where
  "vsnprintf P buf off n s args =
     (if length buf < off + n then Inl Out_of_bounds
      else if n = 0 then Inr buf
      else let out = take (n - 1) (P s args)
           in Inr (take off buf @ map Some out @ Some NUL # drop (off + length out + 1) buf))"

section \<open>The member functions of \<^verbatim>\<open>Logger.cpp\<close>\<close>

text \<open>The default member initializers; the constructor's body is empty.\<close>

definition Logger_init :: Logger where
  "Logger_init = \<lparr> m_logLevel = 2, m_enabled = 1, m_strm = None, m_logEvent = None \<rparr>"

definition begin_strm :: "nat \<Rightarrow> Logger \<Rightarrow> Logger" where
  "begin_strm strm lg = lg\<lparr> m_strm := Some strm \<rparr>"

definition begin_ev :: "loggerCallback \<Rightarrow> Logger \<Rightarrow> Logger" where
  "begin_ev ev lg = lg\<lparr> m_logEvent := ev \<rparr>"

definition begin_strm_ev :: "nat \<Rightarrow> loggerCallback \<Rightarrow> Logger \<Rightarrow> Logger" where
  "begin_strm_ev strm ev lg = lg\<lparr> m_strm := Some strm, m_logEvent := ev \<rparr>"

definition setLogLevel :: "Loglevel \<Rightarrow> Logger \<Rightarrow> Logger" where
  "setLogLevel level lg = lg\<lparr> m_logLevel := level \<rparr>"

definition getLogLevel :: "Logger \<Rightarrow> Loglevel" where
  "getLogLevel lg = m_logLevel lg"

definition setEnabled :: "u8 \<Rightarrow> Logger \<Rightarrow> Logger" where
  "setEnabled en lg = lg\<lparr> m_enabled := en \<rparr>"

definition getEnabled :: "Logger \<Rightarrow> u8" where
  "getEnabled lg = m_enabled lg"

text \<open>
  The \<^verbatim>\<open>switch\<close> of \<^verbatim>\<open>log\<close>, lines 44 to 66, on the local variables declared before it:
  the buffer, \<^verbatim>\<open>const char *levelN\<close> (declared without a value: \<open>None\<close>) and
  \<^verbatim>\<open>uint16_t pti = 0\<close>. There is no \<^verbatim>\<open>default\<close> case, so any other level leaves all three
  as they were.
\<close>

definition level_prefix ::
  "Loglevel \<Rightarrow> buffer \<Rightarrow> fault + (buffer \<times> string option \<times> nat)" where
  "level_prefix level buf =
     (if level = Loglevel_err then
        fbind (strcpy buf logError) (\<lambda>b.
        fbind (store b 5 CHR '':'') (\<lambda>b.
        fbind (store b 6 CHR '' '') (\<lambda>b.
        Inr (b, Some logError, 7))))
      else if level = Loglevel_info then
        fbind (strcpy buf logInfo) (\<lambda>b.
        fbind (store b 4 CHR '':'') (\<lambda>b.
        fbind (store b 5 CHR '' '') (\<lambda>b.
        Inr (b, Some logInfo, 6))))
      else if level = Loglevel_debug then
        fbind (strcpy buf logDebug) (\<lambda>b.
        fbind (store b 5 CHR '':'') (\<lambda>b.
        fbind (store b 6 CHR '' '') (\<lambda>b.
        Inr (b, Some logDebug, 7))))
      else Inr (buf, None, 0))"

text \<open>
  \<^verbatim>\<open>Logger::log\<close>. It returns the logger together with the calls made so far, or the
  fault it ran into; after a fault nothing is said about the calls made before it. The
  \<^verbatim>\<open>println\<close> of the stream and the handler are given the C strings at \<^verbatim>\<open>_buf\<close> and at
  \<^verbatim>\<open>&_buf[pti]\<close>; the handler is given the label by the pointer \<^verbatim>\<open>levelN\<close>, which has to be
  read for that.
\<close>

definition log ::
  "'a formatter \<Rightarrow> Loglevel \<Rightarrow> string \<Rightarrow> 'a \<Rightarrow> Logger \<Rightarrow> event list
     \<Rightarrow> fault + (Logger \<times> event list)" where
  "log P level s args lg tr =
     (if m_enabled lg = 0 \<or> level > m_logLevel lg
         \<or> (m_strm lg = None \<and> \<not> valid (m_logEvent lg))
      then Inr (lg, tr)
      else
        fbind (level_prefix level (replicate LOG_BUFFER_SIZE None)) (\<lambda>(buf, levelN, pti).
        fbind (vsnprintf P buf pti (LOG_BUFFER_SIZE - pti) s args) (\<lambda>buf.
        fbind (case m_strm lg of
                 None \<Rightarrow> Inr tr
               | Some a \<Rightarrow> fbind (c_str buf) (\<lambda>line. Inr (tr @ [Println a line]))) (\<lambda>tr.
        case m_logEvent lg of
          None \<Rightarrow> Inr (lg, tr)
        | Some h \<Rightarrow>
            (case levelN of
               None \<Rightarrow> Inl Indeterminate_read
             | Some lab \<Rightarrow>
                 fbind (c_str (drop pti buf)) (\<lambda>body.
                 Inr (lg, tr @ [Invoke h level lab s body])))))))"

text \<open>
  The convenience wrappers. Each has a second overload for a format string in flash
  memory, which differs only by the pointer cast of its argument.
\<close>

definition error :: "'a formatter \<Rightarrow> string \<Rightarrow> 'a \<Rightarrow> Logger \<Rightarrow> event list
     \<Rightarrow> fault + (Logger \<times> event list)" where
  "error P s args lg tr = log P Loglevel_err s args lg tr"

definition info :: "'a formatter \<Rightarrow> string \<Rightarrow> 'a \<Rightarrow> Logger \<Rightarrow> event list
     \<Rightarrow> fault + (Logger \<times> event list)" where
  "info P s args lg tr = log P Loglevel_info s args lg tr"

definition debug :: "'a formatter \<Rightarrow> string \<Rightarrow> 'a \<Rightarrow> Logger \<Rightarrow> event list
     \<Rightarrow> fault + (Logger \<times> event list)" where
  "debug P s args lg tr = log P Loglevel_debug s args lg tr"

section \<open>A reference formatter\<close>

text \<open>
  An instance of the formatter parameter for the concrete calls below: the conversions
  \<^verbatim>\<open>%d\<close>, \<^verbatim>\<open>%i\<close>, \<^verbatim>\<open>%s\<close>, \<^verbatim>\<open>%c\<close> and \<^verbatim>\<open>%%\<close> of \<^verbatim>\<open>printf\<close>, without flags, width or
  precision. The output stops at a conversion outside this fragment or without a matching
  argument, where C leaves the behaviour open.
\<close>

datatype printf_arg = Int_arg int | Str_arg string | Chr_arg char

fun dec_digits :: "nat \<Rightarrow> string" where
  "dec_digits n =
     (if n < 10 then [''0123456789'' ! n]
      else dec_digits (n div 10) @ [''0123456789'' ! (n mod 10)])"

declare dec_digits.simps [simp del]

definition dec_int :: "int \<Rightarrow> string" where
  "dec_int i = (if i < 0 then CHR ''-'' # dec_digits (nat (- i)) else dec_digits (nat i))"

fun conversion :: "char \<Rightarrow> printf_arg \<Rightarrow> string option" where
  "conversion d (Int_arg i) = (if d = CHR ''d'' \<or> d = CHR ''i'' then Some (dec_int i) else None)"
| "conversion d (Str_arg t) = (if d = CHR ''s'' then Some t else None)"
| "conversion d (Chr_arg k) = (if d = CHR ''c'' then Some [k] else None)"

fun printf :: "printf_arg list formatter" where
  "printf [] args = []"
| "printf [c] args = [c]"
| "printf (c # d # fs) args =
     (if c \<noteq> CHR ''%'' then c # printf (d # fs) args
      else if d = CHR ''%'' then CHR ''%'' # printf fs args
      else case args of
             [] \<Rightarrow> []
           | a # rest \<Rightarrow>
               (case conversion d a of None \<Rightarrow> [] | Some t \<Rightarrow> t @ printf fs rest))"

section \<open>What the specification expects of a call that is let through\<close>

text \<open>
  The definitions of this section follow the words of the specification, not the code.
  \<open>bounded_format P cap s args\<close> is the message as a bounded formatter leaves it in
  \<open>cap\<close> bytes: cut after \<open>cap - 1\<close> characters, and read back as a C string.
  \<open>deliveries\<close> lists the calls the destinations of a logger are to receive: first
  the stream with the line \<^verbatim>\<open><LABEL>: <message>\<close>, then the handler with the numeric level,
  the label, the format string and the message.
\<close>

definition bounded_format :: "'a formatter \<Rightarrow> nat \<Rightarrow> string \<Rightarrow> 'a \<Rightarrow> string" where
  "bounded_format P cap s args = takeWhile (\<lambda>c. c \<noteq> NUL) (take (cap - 1) (P s args))"

definition deliveries :: "Logger \<Rightarrow> Loglevel \<Rightarrow> string \<Rightarrow> string \<Rightarrow> string \<Rightarrow> event list" where
  "deliveries lg level lab s body =
     (case m_strm lg of None \<Rightarrow> [] | Some a \<Rightarrow> [Println a (lab @ '': '' @ body)]) @
     (case m_logEvent lg of None \<Rightarrow> [] | Some h \<Rightarrow> [Invoke h level lab s body])"

text \<open>The label the specification gives each recognized severity.\<close>

definition severity_label :: "Loglevel \<Rightarrow> string option" where
  "severity_label level =
     (if level = Loglevel_err then Some ''ERROR''
      else if level = Loglevel_info then Some ''INFO''
      else if level = Loglevel_debug then Some ''DEBUG''
      else None)"

section \<open>The buffer after each step of \<^verbatim>\<open>log\<close>\<close>

lemma c_str_terminated:
  "c_str (map Some xs @ Some NUL # rest) = Inr (takeWhile (\<lambda>c. c \<noteq> NUL) xs)"
  by (induction xs) (simp_all add: fbind_def)

lemma drop_step: "i < length buf \<Longrightarrow> (drop i buf)[0 := v] = v # drop (Suc i) buf"
  by (simp add: Cons_nth_drop_Suc [symmetric])

lemma level_prefix_err:
  "7 \<le> length buf \<Longrightarrow>
   level_prefix Loglevel_err buf = Inr (map Some ''ERROR: '' @ drop 7 buf, Some ''ERROR'', 7)"
  by (simp add: level_prefix_def strcpy_def store_def fbind_def logError_def list_update_append drop_step)
     (simp add: eval_nat_numeral)

lemma level_prefix_info:
  "7 \<le> length buf \<Longrightarrow>
   level_prefix Loglevel_info buf = Inr (map Some ''INFO: '' @ drop 6 buf, Some ''INFO'', 6)"
  by (simp add: level_prefix_def strcpy_def store_def fbind_def logInfo_def list_update_append drop_step
    Loglevel_info_def Loglevel_err_def) (simp add: eval_nat_numeral)

lemma level_prefix_debug:
  "7 \<le> length buf \<Longrightarrow>
   level_prefix Loglevel_debug buf = Inr (map Some ''DEBUG: '' @ drop 7 buf, Some ''DEBUG'', 7)"
  by (simp add: level_prefix_def strcpy_def store_def fbind_def logDebug_def list_update_append drop_step
    Loglevel_info_def Loglevel_err_def Loglevel_debug_def) (simp add: eval_nat_numeral)

lemma level_prefix_other:
  "level \<noteq> Loglevel_err \<Longrightarrow> level \<noteq> Loglevel_info \<Longrightarrow> level \<noteq> Loglevel_debug \<Longrightarrow>
   level_prefix level buf = Inr (buf, None, 0)"
  by (simp add: level_prefix_def)

lemma vsnprintf_after_prefix:
  assumes "length pre + length rest = n" "length pre < n"
  shows "\<exists>rest'. vsnprintf P (map Some pre @ rest) (length pre) (n - length pre) s args =
           Inr (map Some pre @ map Some (take (n - length pre - 1) (P s args)) @ Some NUL # rest')"
  using assms by (auto simp add: vsnprintf_def Let_def)

lemma c_str_line:
  assumes "NUL \<notin> set pre"
  shows "c_str (map Some pre @ map Some out @ Some NUL # rest) = Inr (pre @ takeWhile (\<lambda>c. c \<noteq> NUL) out)"
proof -
  have "c_str (map Some (pre @ out) @ Some NUL # rest) = Inr (takeWhile (\<lambda>c. c \<noteq> NUL) (pre @ out))"
    by (rule c_str_terminated)
  moreover have "takeWhile (\<lambda>c. c \<noteq> NUL) (pre @ out) = pre @ takeWhile (\<lambda>c. c \<noteq> NUL) out"
    using assms by (intro takeWhile_append2) auto
  ultimately show ?thesis by simp
qed

lemma log_after_switch:
  assumes sw: "level_prefix level (replicate LOG_BUFFER_SIZE None) =
                 Inr (map Some pre @ rest, Some lab, length pre)"
    and len: "length pre + length rest = LOG_BUFFER_SIZE" "length pre < LOG_BUFFER_SIZE"
    and nul: "NUL \<notin> set pre"
    and en: "m_enabled lg \<noteq> 0" and lv: "level \<le> m_logLevel lg"
    and dst: "m_strm lg \<noteq> None \<or> valid (m_logEvent lg)"
  shows "log P level s args lg tr =
           Inr (lg, tr
             @ (case m_strm lg of None \<Rightarrow> []
                | Some a \<Rightarrow> [Println a (pre @ bounded_format P (LOG_BUFFER_SIZE - length pre) s args)])
             @ (case m_logEvent lg of None \<Rightarrow> []
                | Some h \<Rightarrow> [Invoke h level lab s
                                (bounded_format P (LOG_BUFFER_SIZE - length pre) s args)]))"
proof -
  obtain rest' where vs:
    "vsnprintf P (map Some pre @ rest) (length pre) (LOG_BUFFER_SIZE - length pre) s args =
       Inr (map Some pre @ map Some (take (LOG_BUFFER_SIZE - length pre - 1) (P s args))
              @ Some NUL # rest')"
    using vsnprintf_after_prefix [OF len, of P s args] by blast
  have guard: "\<not> (m_enabled lg = 0 \<or> level > m_logLevel lg
         \<or> (m_strm lg = None \<and> \<not> valid (m_logEvent lg)))"
    using en lv dst by auto
  show ?thesis
    unfolding log_def using guard
    by (simp add: sw vs fbind_def c_str_line [OF nul] c_str_terminated bounded_format_def
          valid_def split: option.split)
qed

lemma log_err:
  assumes "m_enabled lg \<noteq> 0" "Loglevel_err \<le> m_logLevel lg"
    "m_strm lg \<noteq> None \<or> valid (m_logEvent lg)"
  shows "log P Loglevel_err s args lg tr =
           Inr (lg, tr @ deliveries lg Loglevel_err ''ERROR'' s (bounded_format P 248 s args))"
proof -
  let ?rest = "drop 7 (replicate LOG_BUFFER_SIZE (None :: char option))"
  have sw: "level_prefix Loglevel_err (replicate LOG_BUFFER_SIZE None) =
          Inr (map Some ''ERROR: '' @ ?rest, Some ''ERROR'', length ''ERROR: '')"
    using level_prefix_err [of "replicate LOG_BUFFER_SIZE None"]
    by (simp add: LOG_BUFFER_SIZE_def)
  have len: "length ''ERROR: '' + length ?rest = LOG_BUFFER_SIZE"
    "length ''ERROR: '' < LOG_BUFFER_SIZE"
    by (simp_all add: LOG_BUFFER_SIZE_def)
  have nul: "NUL \<notin> set ''ERROR: ''"
    by (simp add: NUL_def)
  show ?thesis
    using log_after_switch [OF sw len nul assms, of P s args tr]
    by (simp add: deliveries_def LOG_BUFFER_SIZE_def split: option.split)
qed

lemma log_info:
  assumes "m_enabled lg \<noteq> 0" "Loglevel_info \<le> m_logLevel lg"
    "m_strm lg \<noteq> None \<or> valid (m_logEvent lg)"
  shows "log P Loglevel_info s args lg tr =
           Inr (lg, tr @ deliveries lg Loglevel_info ''INFO'' s (bounded_format P 249 s args))"
proof -
  let ?rest = "drop 6 (replicate LOG_BUFFER_SIZE (None :: char option))"
  have sw: "level_prefix Loglevel_info (replicate LOG_BUFFER_SIZE None) =
          Inr (map Some ''INFO: '' @ ?rest, Some ''INFO'', length ''INFO: '')"
    using level_prefix_info [of "replicate LOG_BUFFER_SIZE None"]
    by (simp add: LOG_BUFFER_SIZE_def)
  have len: "length ''INFO: '' + length ?rest = LOG_BUFFER_SIZE"
    "length ''INFO: '' < LOG_BUFFER_SIZE"
    by (simp_all add: LOG_BUFFER_SIZE_def)
  have nul: "NUL \<notin> set ''INFO: ''"
    by (simp add: NUL_def)
  show ?thesis
    using log_after_switch [OF sw len nul assms, of P s args tr]
    by (simp add: deliveries_def LOG_BUFFER_SIZE_def split: option.split)
qed

lemma log_debug:
  assumes "m_enabled lg \<noteq> 0" "Loglevel_debug \<le> m_logLevel lg"
    "m_strm lg \<noteq> None \<or> valid (m_logEvent lg)"
  shows "log P Loglevel_debug s args lg tr =
           Inr (lg, tr @ deliveries lg Loglevel_debug ''DEBUG'' s (bounded_format P 248 s args))"
proof -
  let ?rest = "drop 7 (replicate LOG_BUFFER_SIZE (None :: char option))"
  have sw: "level_prefix Loglevel_debug (replicate LOG_BUFFER_SIZE None) =
          Inr (map Some ''DEBUG: '' @ ?rest, Some ''DEBUG'', length ''DEBUG: '')"
    using level_prefix_debug [of "replicate LOG_BUFFER_SIZE None"]
    by (simp add: LOG_BUFFER_SIZE_def)
  have len: "length ''DEBUG: '' + length ?rest = LOG_BUFFER_SIZE"
    "length ''DEBUG: '' < LOG_BUFFER_SIZE"
    by (simp_all add: LOG_BUFFER_SIZE_def)
  have nul: "NUL \<notin> set ''DEBUG: ''"
    by (simp add: NUL_def)
  show ?thesis
    using log_after_switch [OF sw len nul assms, of P s args tr]
    by (simp add: deliveries_def LOG_BUFFER_SIZE_def split: option.split)
qed

lemma log_blocked:
  "m_enabled lg = 0 \<or> level > m_logLevel lg \<or> (m_strm lg = None \<and> \<not> valid (m_logEvent lg))
     \<Longrightarrow> log P level s args lg tr = Inr (lg, tr)"
  by (simp add: log_def)

lemma log_unrecognized_handler:
  assumes "level \<noteq> Loglevel_err" "level \<noteq> Loglevel_info" "level \<noteq> Loglevel_debug"
    and "m_enabled lg \<noteq> 0" "level \<le> m_logLevel lg" "m_logEvent lg = Some h"
  shows "log P level s args lg tr = Inl Indeterminate_read"
  using assms not_less [of "m_logLevel lg" level]
  by (simp add: log_def level_prefix_other valid_def vsnprintf_def fbind_def LOG_BUFFER_SIZE_def
        c_str_terminated Let_def split: option.split)

lemma log_unrecognized_stream:
  assumes "level \<noteq> Loglevel_err" "level \<noteq> Loglevel_info" "level \<noteq> Loglevel_debug"
    and "m_enabled lg \<noteq> 0" "level \<le> m_logLevel lg" "m_strm lg = Some a" "m_logEvent lg = None"
  shows "log P level s args lg tr =
           Inr (lg, tr @ [Println a (bounded_format P LOG_BUFFER_SIZE s args)])"
  using assms not_less [of "m_logLevel lg" level]
  by (simp add: log_def level_prefix_other valid_def vsnprintf_def fbind_def LOG_BUFFER_SIZE_def
        c_str_terminated Let_def bounded_format_def)

lemma severity_label_cases:
  "severity_label level = Some lab \<longleftrightarrow>
     level = Loglevel_err \<and> lab = ''ERROR'' \<or> level = Loglevel_info \<and> lab = ''INFO''
       \<or> level = Loglevel_debug \<and> lab = ''DEBUG''"
  by (auto simp add: severity_label_def Loglevel_err_def Loglevel_info_def Loglevel_debug_def)

lemma log_recognized:
  assumes "severity_label level = Some lab"
    and "m_enabled lg \<noteq> 0" "level \<le> m_logLevel lg"
    and "m_strm lg \<noteq> None \<or> valid (m_logEvent lg)"
  shows "log P level s args lg tr =
           Inr (lg, tr @ deliveries lg level lab s
                  (bounded_format P (LOG_BUFFER_SIZE - (length lab + 2)) s args))"
  using assms(1) unfolding severity_label_cases
proof (elim disjE conjE)
  assume "level = Loglevel_err" "lab = ''ERROR''"
  then show ?thesis using log_err [of lg P s args tr] assms(2-) by (simp add: LOG_BUFFER_SIZE_def)
next
  assume "level = Loglevel_info" "lab = ''INFO''"
  then show ?thesis using log_info [of lg P s args tr] assms(2-) by (simp add: LOG_BUFFER_SIZE_def)
next
  assume "level = Loglevel_debug" "lab = ''DEBUG''"
  then show ?thesis using log_debug [of lg P s args tr] assms(2-) by (simp add: LOG_BUFFER_SIZE_def)
qed

lemma deliveries_nonempty:
  "m_strm lg \<noteq> None \<or> valid (m_logEvent lg) \<Longrightarrow> deliveries lg level lab s body \<noteq> []"
  by (auto simp add: deliveries_def valid_def split: option.splits)

lemma labelled_iff:
  "(level, lab) \<in> {(Loglevel_err, ''ERROR''), (Loglevel_info, ''INFO''), (Loglevel_debug, ''DEBUG'')}
     \<longleftrightarrow> severity_label level = Some lab"
  by (auto simp add: severity_label_cases)

lemma fresh_info:
  "m_enabled (begin_strm a Logger_init) = 1" "m_logLevel (begin_strm a Logger_init) = 2"
  "m_strm (begin_strm a Logger_init) = Some a" "m_logEvent (begin_strm a Logger_init) = None"
  by (simp_all add: begin_strm_def Logger_init_def)

lemma bounded_format_standalone:
  "0 < cap \<Longrightarrow>
   fbind (vsnprintf P (replicate cap None) 0 cap s args) c_str = Inr (bounded_format P cap s args)"
  by (simp add: vsnprintf_def fbind_def Let_def c_str_terminated bounded_format_def)

lemma bounded_format_prefix: "\<exists>rest. P s args = bounded_format P cap s args @ rest"
proof -
  have "P s args = take (cap - 1) (P s args) @ drop (cap - 1) (P s args)"
    by simp
  also have "take (cap - 1) (P s args) =
      takeWhile (\<lambda>c. c \<noteq> NUL) (take (cap - 1) (P s args))
        @ dropWhile (\<lambda>c. c \<noteq> NUL) (take (cap - 1) (P s args))"
    by simp
  finally show ?thesis
    unfolding bounded_format_def by (metis append.assoc)
qed

lemma bounded_format_length: "0 < cap \<Longrightarrow> length (bounded_format P cap s args) < cap"
proof -
  assume "0 < cap"
  have "length (bounded_format P cap s args) \<le> length (take (cap - 1) (P s args))"
    unfolding bounded_format_def by (rule length_takeWhile_le)
  also have "\<dots> \<le> cap - 1" by simp
  finally show ?thesis using \<open>0 < cap\<close> by simp
qed

lemma bounded_format_fits:
  "length (P s args) < cap \<Longrightarrow> NUL \<notin> set (P s args) \<Longrightarrow> bounded_format P cap s args = P s args"
  by (auto simp add: bounded_format_def)

lemma level_prefix_label_iff:
  "(\<exists>b lab pti. level_prefix level (replicate LOG_BUFFER_SIZE None) = Inr (b, Some lab, pti))
     \<longleftrightarrow> level \<in> {Loglevel_err, Loglevel_info, Loglevel_debug}"
proof (cases "level \<in> {Loglevel_err, Loglevel_info, Loglevel_debug}")
  case True
  then show ?thesis
    using level_prefix_err [of "replicate LOG_BUFFER_SIZE None"]
      level_prefix_info [of "replicate LOG_BUFFER_SIZE None"]
      level_prefix_debug [of "replicate LOG_BUFFER_SIZE None"]
    by (auto simp add: LOG_BUFFER_SIZE_def)
next
  case False
  then show ?thesis
    by (simp add: level_prefix_other)
qed

section \<open>The claims\<close>

text \<open>
  C1. For every logger and every recognized level, a call of \<^verbatim>\<open>log\<close> with a destination
  attached hands the message to the attached destinations if and only if the enabled byte
  is nonzero and the numeric value of the level is at most that of the threshold. Handing
  the message on means exactly these calls and no other: the line, made of the label, a
  colon, a space and the formatted message, to the stream if one is attached, then the
  level, the label, the format string and the formatted message to the handler if one is
  attached. A call that finds the logger disabled, the level above the threshold, or
  neither stream nor handler attached returns with no call made and the logger as it was.
\<close>

theorem log_delivers_iff_enabled_and_within_threshold:
  "((level, lab) \<in> {(Loglevel_err, ''ERROR''), (Loglevel_info, ''INFO''),
                      (Loglevel_debug, ''DEBUG'')}
      \<and> (m_strm lg \<noteq> None \<or> valid (m_logEvent lg)) \<longrightarrow>
      (\<exists>body calls.
         body = bounded_format P (LOG_BUFFER_SIZE - length (lab @ '': '')) s args
         \<and> calls = (case m_strm lg of
                      None \<Rightarrow> []
                    | Some a \<Rightarrow> [Println a (lab @ '': '' @ body)])
                   @ (case m_logEvent lg of
                        None \<Rightarrow> []
                      | Some h \<Rightarrow> [Invoke h level lab s body])
         \<and> calls \<noteq> []
         \<and> (log P level s args lg tr = Inr (lg, tr @ calls)
              \<longleftrightarrow> m_enabled lg \<noteq> 0 \<and> unat level \<le> unat (m_logLevel lg))))
   \<and> (m_enabled lg = 0 \<or> unat (m_logLevel lg) < unat level
        \<or> (m_strm lg = None \<and> \<not> valid (m_logEvent lg)) \<longrightarrow>
        log P level s args lg tr = Inr (lg, tr))"
proof (intro conjI impI)
  assume "m_enabled lg = 0 \<or> unat (m_logLevel lg) < unat level
        \<or> (m_strm lg = None \<and> \<not> valid (m_logEvent lg))"
  then show "log P level s args lg tr = Inr (lg, tr)"
    by (intro log_blocked) (simp add: word_less_nat_alt)
next
  let ?body = "bounded_format P (LOG_BUFFER_SIZE - length (lab @ '': '')) s args"
  let ?calls = "deliveries lg level lab s ?body"
  assume a: "(level, lab) \<in> {(Loglevel_err, ''ERROR''), (Loglevel_info, ''INFO''),
                      (Loglevel_debug, ''DEBUG'')}
      \<and> (m_strm lg \<noteq> None \<or> valid (m_logEvent lg))"
  then have lab: "severity_label level = Some lab"
    using labelled_iff [of level lab] by simp
  from a have dst: "m_strm lg \<noteq> None \<or> valid (m_logEvent lg)"
    by simp
  have ne: "?calls \<noteq> []"
    using dst by (rule deliveries_nonempty)
  have iff: "log P level s args lg tr = Inr (lg, tr @ ?calls)
      \<longleftrightarrow> m_enabled lg \<noteq> 0 \<and> unat level \<le> unat (m_logLevel lg)"
  proof
    assume "m_enabled lg \<noteq> 0 \<and> unat level \<le> unat (m_logLevel lg)"
    then have "m_enabled lg \<noteq> 0" "level \<le> m_logLevel lg"
      by (simp_all add: word_le_nat_alt)
    from log_recognized [OF lab this dst, of P s args tr]
    show "log P level s args lg tr = Inr (lg, tr @ ?calls)"
      by simp
  next
    assume c: "log P level s args lg tr = Inr (lg, tr @ ?calls)"
    show "m_enabled lg \<noteq> 0 \<and> unat level \<le> unat (m_logLevel lg)"
    proof (rule ccontr)
      assume "\<not> (m_enabled lg \<noteq> 0 \<and> unat level \<le> unat (m_logLevel lg))"
      then have "m_enabled lg = 0 \<or> m_logLevel lg < level"
        by (auto simp add: word_less_nat_alt)
      then have "log P level s args lg tr = Inr (lg, tr)"
        by (intro log_blocked) blast
      with c ne show False by simp
    qed
  qed
  have unfolded: "?calls =
      (case m_strm lg of None \<Rightarrow> [] | Some a \<Rightarrow> [Println a (lab @ '': '' @ ?body)])
      @ (case m_logEvent lg of None \<Rightarrow> [] | Some h \<Rightarrow> [Invoke h level lab s ?body])"
    by (simp only: deliveries_def)
  from unfolded ne iff
  show "\<exists>body calls.
         body = bounded_format P (LOG_BUFFER_SIZE - length (lab @ '': '')) s args
         \<and> calls = (case m_strm lg of
                      None \<Rightarrow> []
                    | Some a \<Rightarrow> [Println a (lab @ '': '' @ body)])
                   @ (case m_logEvent lg of
                        None \<Rightarrow> []
                      | Some h \<Rightarrow> [Invoke h level lab s body])
         \<and> calls \<noteq> []
         \<and> (log P level s args lg tr = Inr (lg, tr @ calls)
              \<longleftrightarrow> m_enabled lg \<noteq> 0 \<and> unat level \<le> unat (m_logLevel lg))"
    by blast
qed

theorem log_delivers_iff_witness:
  "(Loglevel_info, ''INFO'') \<in> {(Loglevel_err, ''ERROR''), (Loglevel_info, ''INFO''),
                                   (Loglevel_debug, ''DEBUG'')}
   \<and> m_strm (begin_strm_ev 7 (Some 9) Logger_init) = Some 7
   \<and> m_enabled (begin_strm_ev 7 (Some 9) Logger_init) \<noteq> 0
   \<and> unat Loglevel_info \<le> unat (m_logLevel (begin_strm_ev 7 (Some 9) Logger_init))
   \<and> log printf Loglevel_info ''up %d'' [Int_arg 3] (begin_strm_ev 7 (Some 9) Logger_init) []
       = Inr (begin_strm_ev 7 (Some 9) Logger_init,
              [Println 7 ''INFO: up 3'', Invoke 9 2 ''INFO'' ''up %d'' ''up 3''])
   \<and> m_enabled (setEnabled 0 (begin_strm_ev 7 (Some 9) Logger_init)) = 0
   \<and> log printf Loglevel_info ''up %d'' [Int_arg 3]
         (setEnabled 0 (begin_strm_ev 7 (Some 9) Logger_init)) []
       = Inr (setEnabled 0 (begin_strm_ev 7 (Some 9) Logger_init), [])
   \<and> unat (m_logLevel (begin_strm_ev 7 (Some 9) Logger_init)) < unat Loglevel_debug
   \<and> log printf Loglevel_debug ''up %d'' [Int_arg 3] (begin_strm_ev 7 (Some 9) Logger_init) []
       = Inr (begin_strm_ev 7 (Some 9) Logger_init, [])"
  using log_delivers_iff_enabled_and_within_threshold
          [where level = Loglevel_info and lab = "''INFO''"
             and lg = "begin_strm_ev 7 (Some 9) Logger_init" and P = printf
             and s = "''up %d''" and args = "[Int_arg 3]" and tr = "[]"]
        log_delivers_iff_enabled_and_within_threshold
          [where level = Loglevel_info and lab = "''INFO''"
             and lg = "setEnabled 0 (begin_strm_ev 7 (Some 9) Logger_init)" and P = printf
             and s = "''up %d''" and args = "[Int_arg 3]" and tr = "[]"]
        log_delivers_iff_enabled_and_within_threshold
          [where level = Loglevel_debug and lab = "''DEBUG''"
             and lg = "begin_strm_ev 7 (Some 9) Logger_init" and P = printf
             and s = "''up %d''" and args = "[Int_arg 3]" and tr = "[]"]
  by (simp add: begin_strm_ev_def Logger_init_def Loglevel_info_def Loglevel_debug_def
        setEnabled_def bounded_format_def LOG_BUFFER_SIZE_def NUL_def dec_int_def
        dec_digits.simps)

text \<open>
  C2. For every message that is let through, the label is exactly \<^verbatim>\<open>ERROR\<close> for
  \<^verbatim>\<open>err\<close>, \<^verbatim>\<open>INFO\<close> for \<^verbatim>\<open>info\<close> and \<^verbatim>\<open>DEBUG\<close> for \<^verbatim>\<open>debug\<close>, and the line written to the
  attached stream is exactly the label, a colon, a space and the formatted message. In
  particular, on a fresh logger (threshold \<^verbatim>\<open>info\<close>, enabled, no handler) with a stream
  attached, \<^verbatim>\<open>debug("x=%d", 5)\<close> writes nothing and \<^verbatim>\<open>info("x=%d", 5)\<close> writes the line
  \<^verbatim>\<open>INFO: x=5\<close>.
\<close>

theorem stream_line_is_label_colon_message:
  "((level, lab) \<in> {(Loglevel_err, ''ERROR''), (Loglevel_info, ''INFO''),
                      (Loglevel_debug, ''DEBUG'')}
      \<and> m_enabled lg \<noteq> 0 \<and> level \<le> m_logLevel lg \<and> m_strm lg = Some a \<longrightarrow>
      log P level s args lg tr =
        Inr (lg, tr @ Println a (lab @ '': '' @
                   bounded_format P (LOG_BUFFER_SIZE - length (lab @ '': '')) s args)
               # (case m_logEvent lg of
                    None \<Rightarrow> []
                  | Some h \<Rightarrow> [Invoke h level lab s
                      (bounded_format P (LOG_BUFFER_SIZE - length (lab @ '': '')) s args)])))
   \<and> debug printf ''x=%d'' [Int_arg 5] (begin_strm a Logger_init) []
       = Inr (begin_strm a Logger_init, [])
   \<and> info printf ''x=%d'' [Int_arg 5] (begin_strm a Logger_init) []
       = Inr (begin_strm a Logger_init, [Println a ''INFO: x=5''])"
proof (intro conjI impI)
  assume a: "(level, lab) \<in> {(Loglevel_err, ''ERROR''), (Loglevel_info, ''INFO''),
                      (Loglevel_debug, ''DEBUG'')}
      \<and> m_enabled lg \<noteq> 0 \<and> level \<le> m_logLevel lg \<and> m_strm lg = Some a"
  then have "severity_label level = Some lab" "m_enabled lg \<noteq> 0" "level \<le> m_logLevel lg"
    "m_strm lg \<noteq> None \<or> valid (m_logEvent lg)"
    using labelled_iff [of level lab] by simp_all
  from log_recognized [OF this, of P s args tr] a
  show "log P level s args lg tr =
        Inr (lg, tr @ Println a (lab @ '': '' @
                   bounded_format P (LOG_BUFFER_SIZE - length (lab @ '': '')) s args)
               # (case m_logEvent lg of
                    None \<Rightarrow> []
                  | Some h \<Rightarrow> [Invoke h level lab s
                      (bounded_format P (LOG_BUFFER_SIZE - length (lab @ '': '')) s args)]))"
    by (simp add: deliveries_def cong: option.case_cong)
next
  show "debug printf ''x=%d'' [Int_arg 5] (begin_strm a Logger_init) []
       = Inr (begin_strm a Logger_init, [])"
    unfolding debug_def
    by (rule log_blocked) (simp add: fresh_info Loglevel_debug_def)
next
  have "log printf Loglevel_info ''x=%d'' [Int_arg 5] (begin_strm a Logger_init) []
      = Inr (begin_strm a Logger_init, [] @ deliveries (begin_strm a Logger_init) Loglevel_info
           ''INFO'' ''x=%d'' (bounded_format printf 249 ''x=%d'' [Int_arg 5]))"
    by (rule log_info) (simp_all add: fresh_info Loglevel_info_def)
  then show "info printf ''x=%d'' [Int_arg 5] (begin_strm a Logger_init) []
       = Inr (begin_strm a Logger_init, [Println a ''INFO: x=5''])"
    by (simp add: info_def deliveries_def fresh_info bounded_format_def NUL_def
          dec_int_def dec_digits.simps)
qed

theorem stream_line_witness:
  "(Loglevel_err, ''ERROR'') \<in> {(Loglevel_err, ''ERROR''), (Loglevel_info, ''INFO''),
                                  (Loglevel_debug, ''DEBUG'')}
   \<and> m_enabled (begin_strm_ev 1 (Some 2) Logger_init) \<noteq> 0
   \<and> Loglevel_err \<le> m_logLevel (begin_strm_ev 1 (Some 2) Logger_init)
   \<and> m_strm (begin_strm_ev 1 (Some 2) Logger_init) = Some 1
   \<and> log printf Loglevel_err ''t=%d %s'' [Int_arg (-40), Str_arg ''C'']
         (begin_strm_ev 1 (Some 2) Logger_init) []
       = Inr (begin_strm_ev 1 (Some 2) Logger_init,
              [Println 1 ''ERROR: t=-40 C'',
               Invoke 2 1 ''ERROR'' ''t=%d %s'' ''t=-40 C''])"
  using stream_line_is_label_colon_message
          [of Loglevel_err "''ERROR''" "begin_strm_ev 1 (Some 2) Logger_init" 1 printf
              "''t=%d %s''" "[Int_arg (-40), Str_arg ''C'']" "[]"]
  by (simp add: begin_strm_ev_def Logger_init_def Loglevel_err_def bounded_format_def
        LOG_BUFFER_SIZE_def NUL_def dec_int_def dec_digits.simps)

text \<open>
  C3. Whenever a handler is attached and a message is let through, the handler is called
  once with four arguments: the numeric level, the label, the format string as it was
  passed, and the formatted message without the label prefix. In particular, with threshold
  \<^verbatim>\<open>debug\<close>, a handler attached and no stream, \<^verbatim>\<open>error("boom")\<close> calls the handler with
  \<open>(1, ''ERROR'', ''boom'', ''boom'')\<close> and writes no line.
\<close>

theorem handler_receives_level_label_format_message:
  "((level, lab) \<in> {(Loglevel_err, ''ERROR''), (Loglevel_info, ''INFO''),
                      (Loglevel_debug, ''DEBUG'')}
      \<and> m_enabled lg \<noteq> 0 \<and> level \<le> m_logLevel lg \<and> m_logEvent lg = Some h \<longrightarrow>
      (\<exists>body. body = bounded_format P (LOG_BUFFER_SIZE - length (lab @ '': '')) s args
         \<and> log P level s args lg tr =
             Inr (lg, tr @ (case m_strm lg of
                              None \<Rightarrow> []
                            | Some a \<Rightarrow> [Println a (lab @ '': '' @ body)])
                         @ [Invoke h level lab s body])))
   \<and> error printf ''boom'' [] (setLogLevel Loglevel_debug (begin_ev (Some h) Logger_init)) []
       = Inr (setLogLevel Loglevel_debug (begin_ev (Some h) Logger_init),
              [Invoke h 1 ''ERROR'' ''boom'' ''boom''])"
proof (intro conjI impI)
  assume a: "(level, lab) \<in> {(Loglevel_err, ''ERROR''), (Loglevel_info, ''INFO''),
                      (Loglevel_debug, ''DEBUG'')}
      \<and> m_enabled lg \<noteq> 0 \<and> level \<le> m_logLevel lg \<and> m_logEvent lg = Some h"
  then have "severity_label level = Some lab" "m_enabled lg \<noteq> 0" "level \<le> m_logLevel lg"
    "m_strm lg \<noteq> None \<or> valid (m_logEvent lg)"
    using labelled_iff [of level lab] by (simp_all add: valid_def)
  from log_recognized [OF this, of P s args tr] a
  show "\<exists>body. body = bounded_format P (LOG_BUFFER_SIZE - length (lab @ '': '')) s args
         \<and> log P level s args lg tr =
             Inr (lg, tr @ (case m_strm lg of
                              None \<Rightarrow> []
                            | Some a \<Rightarrow> [Println a (lab @ '': '' @ body)])
                         @ [Invoke h level lab s body])"
    by (simp add: deliveries_def cong: option.case_cong)
next
  let ?lg = "setLogLevel Loglevel_debug (begin_ev (Some h) Logger_init)"
  have f: "m_enabled ?lg = 1" "m_logLevel ?lg = 3" "m_strm ?lg = None" "m_logEvent ?lg = Some h"
    by (simp_all add: setLogLevel_def begin_ev_def Logger_init_def Loglevel_debug_def)
  have "log printf Loglevel_err ''boom'' [] ?lg []
      = Inr (?lg, [] @ deliveries ?lg Loglevel_err ''ERROR'' ''boom''
                         (bounded_format printf 248 ''boom'' []))"
    by (rule log_err) (simp_all add: f Loglevel_err_def valid_def)
  then show "error printf ''boom'' [] ?lg [] = Inr (?lg, [Invoke h 1 ''ERROR'' ''boom'' ''boom''])"
    by (simp add: error_def deliveries_def f bounded_format_def NUL_def Loglevel_err_def)
qed

theorem handler_arguments_witness:
  "(Loglevel_debug, ''DEBUG'') \<in> {(Loglevel_err, ''ERROR''), (Loglevel_info, ''INFO''),
                                  (Loglevel_debug, ''DEBUG'')}
   \<and> m_enabled (setLogLevel Loglevel_debug (begin_strm_ev 4 (Some 9) Logger_init)) \<noteq> 0
   \<and> Loglevel_debug \<le> m_logLevel (setLogLevel Loglevel_debug (begin_strm_ev 4 (Some 9) Logger_init))
   \<and> m_logEvent (setLogLevel Loglevel_debug (begin_strm_ev 4 (Some 9) Logger_init)) = Some 9
   \<and> log printf Loglevel_debug ''%s:%d'' [Str_arg ''adc'', Int_arg 1023]
         (setLogLevel Loglevel_debug (begin_strm_ev 4 (Some 9) Logger_init)) []
       = Inr (setLogLevel Loglevel_debug (begin_strm_ev 4 (Some 9) Logger_init),
              [Println 4 ''DEBUG: adc:1023'', Invoke 9 3 ''DEBUG'' ''%s:%d'' ''adc:1023''])"
  using handler_receives_level_label_format_message
          [of Loglevel_debug "''DEBUG''" "setLogLevel Loglevel_debug (begin_strm_ev 4 (Some 9) Logger_init)"
              9 printf "''%s:%d''" "[Str_arg ''adc'', Int_arg 1023]" "[]"]
  by (simp add: begin_strm_ev_def setLogLevel_def Logger_init_def Loglevel_debug_def
        bounded_format_def LOG_BUFFER_SIZE_def NUL_def dec_int_def dec_digits.simps)

text \<open>
  C4. For every call that is let through, the message handed on is what \<^verbatim>\<open>vsnprintf\<close>
  leaves in a buffer of the capacity that remains after the prefix: the formatter's output
  for the format string and arguments, cut to fit. The cut is silent: the call ends without
  a fault and with the logger unchanged, the message is an initial part of the full output,
  the line stays inside the buffer, and an output that fits is handed on whole.
\<close>

theorem message_is_bounded_formatter_output:
  "((level, lab) \<in> {(Loglevel_err, ''ERROR''), (Loglevel_info, ''INFO''),
                     (Loglevel_debug, ''DEBUG'')}
     \<and> m_enabled lg \<noteq> 0 \<and> level \<le> m_logLevel lg
     \<and> (m_strm lg \<noteq> None \<or> valid (m_logEvent lg)) \<longrightarrow>
   (\<exists>body cap.
      cap = LOG_BUFFER_SIZE - length (lab @ '': '')
      \<and> log P level s args lg tr = Inr (lg, tr @ deliveries lg level lab s body)
      \<and> fbind (vsnprintf P (replicate cap None) 0 cap s args) c_str = Inr body
      \<and> body = takeWhile (\<lambda>c. c \<noteq> NUL) (take (cap - 1) (P s args))
      \<and> (\<exists>rest. P s args = body @ rest)
      \<and> length (lab @ '': '' @ body) < LOG_BUFFER_SIZE
      \<and> (length (P s args) < cap \<and> NUL \<notin> set (P s args) \<longrightarrow> body = P s args)))
   \<and> (level \<notin> {Loglevel_err, Loglevel_info, Loglevel_debug}
        \<and> m_enabled lg \<noteq> 0 \<and> level \<le> m_logLevel lg
        \<and> m_strm lg = Some a \<and> m_logEvent lg = None \<longrightarrow>
      (\<exists>body.
         log P level s args lg tr = Inr (lg, tr @ [Println a body])
         \<and> fbind (vsnprintf P (replicate LOG_BUFFER_SIZE None) 0 LOG_BUFFER_SIZE s args) c_str
             = Inr body
         \<and> (\<exists>rest. P s args = body @ rest)
         \<and> length body < LOG_BUFFER_SIZE))"
proof (intro conjI impI)
  assume a: "level \<notin> {Loglevel_err, Loglevel_info, Loglevel_debug}
        \<and> m_enabled lg \<noteq> 0 \<and> level \<le> m_logLevel lg
        \<and> m_strm lg = Some a \<and> m_logEvent lg = None"
  let ?body = "bounded_format P LOG_BUFFER_SIZE s args"
  have pos: "0 < LOG_BUFFER_SIZE"
    by (simp add: LOG_BUFFER_SIZE_def)
  from a have "log P level s args lg tr = Inr (lg, tr @ [Println a ?body])"
    by (intro log_unrecognized_stream) simp_all
  moreover have
    "fbind (vsnprintf P (replicate LOG_BUFFER_SIZE None) 0 LOG_BUFFER_SIZE s args) c_str
       = Inr ?body"
    using pos by (rule bounded_format_standalone)
  moreover have "\<exists>rest. P s args = ?body @ rest"
    by (rule bounded_format_prefix)
  moreover have "length ?body < LOG_BUFFER_SIZE"
    using pos by (rule bounded_format_length)
  ultimately show "\<exists>body.
         log P level s args lg tr = Inr (lg, tr @ [Println a body])
         \<and> fbind (vsnprintf P (replicate LOG_BUFFER_SIZE None) 0 LOG_BUFFER_SIZE s args) c_str
             = Inr body
         \<and> (\<exists>rest. P s args = body @ rest)
         \<and> length body < LOG_BUFFER_SIZE"
    by blast
next
  let ?cap = "LOG_BUFFER_SIZE - length (lab @ '': '')"
  let ?body = "bounded_format P ?cap s args"
  assume a: "(level, lab) \<in> {(Loglevel_err, ''ERROR''), (Loglevel_info, ''INFO''),
                     (Loglevel_debug, ''DEBUG'')}
     \<and> m_enabled lg \<noteq> 0 \<and> level \<le> m_logLevel lg
     \<and> (m_strm lg \<noteq> None \<or> valid (m_logEvent lg))"
  then have h: "severity_label level = Some lab" "m_enabled lg \<noteq> 0" "level \<le> m_logLevel lg"
    "m_strm lg \<noteq> None \<or> valid (m_logEvent lg)"
    using labelled_iff [of level lab] by simp_all
  from a have lab: "length lab \<le> 5"
    by auto
  then have cap: "0 < ?cap" "length (lab @ '': '') + ?cap = LOG_BUFFER_SIZE"
    by (simp_all add: LOG_BUFFER_SIZE_def)
  have 1: "log P level s args lg tr = Inr (lg, tr @ deliveries lg level lab s ?body)"
    using log_recognized [OF h, of P s args tr] by simp
  have 2: "fbind (vsnprintf P (replicate ?cap None) 0 ?cap s args) c_str = Inr ?body"
    using cap(1) by (rule bounded_format_standalone)
  have 3: "?body = takeWhile (\<lambda>c. c \<noteq> NUL) (take (?cap - 1) (P s args))"
    by (simp add: bounded_format_def)
  have 4: "\<exists>rest. P s args = ?body @ rest"
    by (rule bounded_format_prefix)
  have 5: "length (lab @ '': '' @ ?body) < LOG_BUFFER_SIZE"
    using bounded_format_length [OF cap(1), of P s args] cap(2) by simp
  have 6: "length (P s args) < ?cap \<and> NUL \<notin> set (P s args) \<longrightarrow> ?body = P s args"
    using bounded_format_fits [of P s args ?cap] by blast
  from 1 2 3 4 5 6
  show "\<exists>body cap.
      cap = LOG_BUFFER_SIZE - length (lab @ '': '')
      \<and> log P level s args lg tr = Inr (lg, tr @ deliveries lg level lab s body)
      \<and> fbind (vsnprintf P (replicate cap None) 0 cap s args) c_str = Inr body
      \<and> body = takeWhile (\<lambda>c. c \<noteq> NUL) (take (cap - 1) (P s args))
      \<and> (\<exists>rest. P s args = body @ rest)
      \<and> length (lab @ '': '' @ body) < LOG_BUFFER_SIZE
      \<and> (length (P s args) < cap \<and> NUL \<notin> set (P s args) \<longrightarrow> body = P s args)"
    by blast
qed

theorem message_truncation_witness:
  "(Loglevel_err, ''ERROR'') \<in> {(Loglevel_err, ''ERROR''), (Loglevel_info, ''INFO''),
                                  (Loglevel_debug, ''DEBUG'')}
   \<and> m_enabled (begin_strm_ev 1 (Some 2) Logger_init) \<noteq> 0
   \<and> Loglevel_err \<le> m_logLevel (begin_strm_ev 1 (Some 2) Logger_init)
   \<and> m_strm (begin_strm_ev 1 (Some 2) Logger_init) = Some 1
   \<and> length (printf ''%s'' [Str_arg (replicate 300 CHR ''a'')]) = 300
   \<and> log printf Loglevel_err ''%s'' [Str_arg (replicate 300 CHR ''a'')]
         (begin_strm_ev 1 (Some 2) Logger_init) []
       = Inr (begin_strm_ev 1 (Some 2) Logger_init,
              [Println 1 (''ERROR: '' @ replicate 247 CHR ''a''),
               Invoke 2 1 ''ERROR'' ''%s'' (replicate 247 CHR ''a'')])
   \<and> length (printf ''%s'' [Str_arg ''ok'']) < LOG_BUFFER_SIZE - length ''ERROR: ''
   \<and> NUL \<notin> set (printf ''%s'' [Str_arg ''ok''])
   \<and> log printf Loglevel_err ''%s'' [Str_arg ''ok'']
         (begin_strm_ev 1 (Some 2) Logger_init) []
       = Inr (begin_strm_ev 1 (Some 2) Logger_init,
              [Println 1 ''ERROR: ok'', Invoke 2 1 ''ERROR'' ''%s'' ''ok''])
   \<and> (0 :: Loglevel) \<notin> {Loglevel_err, Loglevel_info, Loglevel_debug}
   \<and> m_enabled (begin_strm 1 Logger_init) \<noteq> 0
   \<and> (0 :: Loglevel) \<le> m_logLevel (begin_strm 1 Logger_init)
   \<and> m_strm (begin_strm 1 Logger_init) = Some 1
   \<and> m_logEvent (begin_strm 1 Logger_init) = None
   \<and> log printf 0 ''%s'' [Str_arg (replicate 300 CHR ''a'')] (begin_strm 1 Logger_init) []
       = Inr (begin_strm 1 Logger_init, [Println 1 (replicate 254 CHR ''a'')])"
  using message_is_bounded_formatter_output
          [where level = Loglevel_err and lab = "''ERROR''"
             and lg = "begin_strm_ev 1 (Some 2) Logger_init" and P = printf
             and s = "''%s''" and args = "[Str_arg (replicate 300 CHR ''a'')]" and tr = "[]"]
        message_is_bounded_formatter_output
          [where level = Loglevel_err and lab = "''ERROR''"
             and lg = "begin_strm_ev 1 (Some 2) Logger_init" and P = printf
             and s = "''%s''" and args = "[Str_arg ''ok'']" and tr = "[]"]
        message_is_bounded_formatter_output
          [where level = 0 and lg = "begin_strm 1 Logger_init" and a = 1 and P = printf
             and s = "''%s''" and args = "[Str_arg (replicate 300 CHR ''a'')]" and tr = "[]"]
  by (simp add: begin_strm_ev_def begin_strm_def Logger_init_def Loglevel_err_def
        Loglevel_info_def Loglevel_debug_def deliveries_def
        LOG_BUFFER_SIZE_def NUL_def takeWhile_replicate bounded_format_standalone
        bounded_format_def)

text \<open>
  C5. When both a stream and a handler are attached and a message is let through, the one
  call of \<^verbatim>\<open>log\<close> reaches both, and the line is written to the stream before the handler
  is called.
\<close>

theorem stream_written_before_handler_called:
  "(level, lab) \<in> {(Loglevel_err, ''ERROR''), (Loglevel_info, ''INFO''),
                     (Loglevel_debug, ''DEBUG'')}
     \<and> m_enabled lg \<noteq> 0 \<and> level \<le> m_logLevel lg
     \<and> m_strm lg = Some a \<and> m_logEvent lg = Some h \<longrightarrow>
   (\<exists>body. body = bounded_format P (LOG_BUFFER_SIZE - length (lab @ '': '')) s args
      \<and> log P level s args lg tr =
           Inr (lg, tr @ [Println a (lab @ '': '' @ body), Invoke h level lab s body]))"
proof
  assume a: "(level, lab) \<in> {(Loglevel_err, ''ERROR''), (Loglevel_info, ''INFO''),
                     (Loglevel_debug, ''DEBUG'')}
     \<and> m_enabled lg \<noteq> 0 \<and> level \<le> m_logLevel lg
     \<and> m_strm lg = Some a \<and> m_logEvent lg = Some h"
  then have "severity_label level = Some lab" "m_enabled lg \<noteq> 0" "level \<le> m_logLevel lg"
    "m_strm lg \<noteq> None \<or> valid (m_logEvent lg)"
    using labelled_iff [of level lab] by simp_all
  from log_recognized [OF this, of P s args tr] a
  show "\<exists>body. body = bounded_format P (LOG_BUFFER_SIZE - length (lab @ '': '')) s args
      \<and> log P level s args lg tr =
           Inr (lg, tr @ [Println a (lab @ '': '' @ body), Invoke h level lab s body])"
    by (simp add: deliveries_def)
qed

theorem stream_before_handler_witness:
  "(Loglevel_info, ''INFO'') \<in> {(Loglevel_err, ''ERROR''), (Loglevel_info, ''INFO''),
                                  (Loglevel_debug, ''DEBUG'')}
   \<and> m_enabled (begin_strm_ev 3 (Some 8) Logger_init) \<noteq> 0
   \<and> Loglevel_info \<le> m_logLevel (begin_strm_ev 3 (Some 8) Logger_init)
   \<and> m_strm (begin_strm_ev 3 (Some 8) Logger_init) = Some 3
   \<and> m_logEvent (begin_strm_ev 3 (Some 8) Logger_init) = Some 8
   \<and> log printf Loglevel_info ''%d%%'' [Int_arg 75] (begin_strm_ev 3 (Some 8) Logger_init)
         [Println 3 ''INFO: start'']
       = Inr (begin_strm_ev 3 (Some 8) Logger_init,
              [Println 3 ''INFO: start'', Println 3 ''INFO: 75%'',
               Invoke 8 2 ''INFO'' ''%d%%'' ''75%''])"
  using stream_written_before_handler_called
          [of Loglevel_info "''INFO''" "begin_strm_ev 3 (Some 8) Logger_init" 3 8 printf
              "''%d%%''" "[Int_arg 75]" "[Println 3 ''INFO: start'']"]
  by (simp add: begin_strm_ev_def Logger_init_def Loglevel_info_def bounded_format_def
        LOG_BUFFER_SIZE_def NUL_def dec_int_def dec_digits.simps)

text \<open>
  C6. Each of \<^verbatim>\<open>begin(stream)\<close>, \<^verbatim>\<open>begin(callback)\<close> and \<^verbatim>\<open>begin(stream, callback)\<close>
  overwrites what an earlier call had set (the last write wins), none of them can fail, and
  after any of them a message that is let through goes to the destinations supplied last.
\<close>

theorem begin_last_write_wins:
  "begin_strm b (begin_strm a lg) = begin_strm b lg
   \<and> begin_ev ev' (begin_ev ev lg) = begin_ev ev' lg
   \<and> begin_strm_ev b ev' (begin_strm_ev a ev lg) = begin_strm_ev b ev' lg
   \<and> begin_strm_ev b ev' (begin_ev ev (begin_strm a lg)) = begin_strm_ev b ev' lg
   \<and> m_strm (begin_strm b lg) = Some b
   \<and> m_logEvent (begin_ev ev' lg) = ev'
   \<and> m_strm (begin_strm_ev b ev' lg) = Some b
   \<and> m_logEvent (begin_strm_ev b ev' lg) = ev'
   \<and> ((level, lab) \<in> {(Loglevel_err, ''ERROR''), (Loglevel_info, ''INFO''),
                        (Loglevel_debug, ''DEBUG'')}
        \<and> m_enabled lg \<noteq> 0 \<and> level \<le> m_logLevel lg \<longrightarrow>
        (\<exists>body. body = bounded_format P (LOG_BUFFER_SIZE - length (lab @ '': '')) s args
           \<and> log P level s args (begin_strm b lg) tr =
               Inr (begin_strm b lg,
                    tr @ Println b (lab @ '': '' @ body)
                       # (case m_logEvent lg of
                            None \<Rightarrow> []
                          | Some h \<Rightarrow> [Invoke h level lab s body]))
           \<and> log P level s args (begin_ev (Some k) lg) tr =
               Inr (begin_ev (Some k) lg,
                    tr @ (case m_strm lg of
                            None \<Rightarrow> []
                          | Some c \<Rightarrow> [Println c (lab @ '': '' @ body)])
                       @ [Invoke k level lab s body])
           \<and> log P level s args (begin_strm_ev b ev' lg) tr =
               Inr (begin_strm_ev b ev' lg,
                    tr @ Println b (lab @ '': '' @ body)
                       # (case ev' of
                            None \<Rightarrow> []
                          | Some h \<Rightarrow> [Invoke h level lab s body]))))"
proof (intro conjI impI)
  assume a: "(level, lab) \<in> {(Loglevel_err, ''ERROR''), (Loglevel_info, ''INFO''),
                        (Loglevel_debug, ''DEBUG'')}
        \<and> m_enabled lg \<noteq> 0 \<and> level \<le> m_logLevel lg"
  then have lab: "severity_label level = Some lab"
    using labelled_iff [of level lab] by simp
  let ?body = "bounded_format P (LOG_BUFFER_SIZE - (length lab + 2)) s args"
  have 1: "log P level s args (begin_strm b lg) tr =
      Inr (begin_strm b lg, tr @ deliveries (begin_strm b lg) level lab s ?body)"
    using a by (intro log_recognized [OF lab]) (simp_all add: begin_strm_def)
  have 2: "log P level s args (begin_ev (Some k) lg) tr =
      Inr (begin_ev (Some k) lg, tr @ deliveries (begin_ev (Some k) lg) level lab s ?body)"
    using a by (intro log_recognized [OF lab]) (simp_all add: begin_ev_def valid_def)
  have 3: "log P level s args (begin_strm_ev b ev' lg) tr =
      Inr (begin_strm_ev b ev' lg, tr @ deliveries (begin_strm_ev b ev' lg) level lab s ?body)"
    using a by (intro log_recognized [OF lab]) (simp_all add: begin_strm_ev_def)
  show "\<exists>body. body = bounded_format P (LOG_BUFFER_SIZE - length (lab @ '': '')) s args
           \<and> log P level s args (begin_strm b lg) tr =
               Inr (begin_strm b lg,
                    tr @ Println b (lab @ '': '' @ body)
                       # (case m_logEvent lg of
                            None \<Rightarrow> []
                          | Some h \<Rightarrow> [Invoke h level lab s body]))
           \<and> log P level s args (begin_ev (Some k) lg) tr =
               Inr (begin_ev (Some k) lg,
                    tr @ (case m_strm lg of
                            None \<Rightarrow> []
                          | Some c \<Rightarrow> [Println c (lab @ '': '' @ body)])
                       @ [Invoke k level lab s body])
           \<and> log P level s args (begin_strm_ev b ev' lg) tr =
               Inr (begin_strm_ev b ev' lg,
                    tr @ Println b (lab @ '': '' @ body)
                       # (case ev' of
                            None \<Rightarrow> []
                          | Some h \<Rightarrow> [Invoke h level lab s body]))"
    unfolding 1 2 3
    by (simp add: deliveries_def begin_strm_def begin_ev_def begin_strm_ev_def
          cong: option.case_cong)
qed (simp_all add: begin_strm_def begin_ev_def begin_strm_ev_def)

theorem begin_last_write_wins_witness:
  "(Loglevel_err, ''ERROR'') \<in> {(Loglevel_err, ''ERROR''), (Loglevel_info, ''INFO''),
                                  (Loglevel_debug, ''DEBUG'')}
   \<and> m_enabled (begin_strm_ev 1 (Some 2) Logger_init) \<noteq> 0
   \<and> Loglevel_err \<le> m_logLevel (begin_strm_ev 1 (Some 2) Logger_init)
   \<and> log printf Loglevel_err ''boom'' [] (begin_strm 5 (begin_strm_ev 1 (Some 2) Logger_init)) []
       = Inr (begin_strm 5 (begin_strm_ev 1 (Some 2) Logger_init),
              [Println 5 ''ERROR: boom'', Invoke 2 1 ''ERROR'' ''boom'' ''boom''])
   \<and> log printf Loglevel_err ''boom'' [] (begin_ev (Some 6) (begin_strm_ev 1 (Some 2) Logger_init)) []
       = Inr (begin_ev (Some 6) (begin_strm_ev 1 (Some 2) Logger_init),
              [Println 1 ''ERROR: boom'', Invoke 6 1 ''ERROR'' ''boom'' ''boom''])
   \<and> log printf Loglevel_err ''boom'' []
         (begin_strm_ev 5 None (begin_strm_ev 1 (Some 2) Logger_init)) []
       = Inr (begin_strm_ev 5 None (begin_strm_ev 1 (Some 2) Logger_init),
              [Println 5 ''ERROR: boom''])"
  using begin_last_write_wins
          [where level = Loglevel_err and lab = "''ERROR''"
             and lg = "begin_strm_ev 1 (Some 2) Logger_init" and P = printf
             and s = "''boom''" and args = "[]" and tr = "[]"
             and b = 5 and k = 6 and ev' = None]
  by (simp add: begin_strm_ev_def Logger_init_def Loglevel_err_def bounded_format_def
        LOG_BUFFER_SIZE_def NUL_def)

text \<open>
  C7. A freshly constructed logger has threshold \<^verbatim>\<open>info\<close> (numeric value 2), is enabled
  (\<^verbatim>\<open>getEnabled\<close> returns a nonzero byte), and has neither stream nor handler attached, so
  that a message emitted before any \<^verbatim>\<open>begin\<close> reaches nothing.
\<close>

theorem fresh_logger_defaults:
  "getLogLevel Logger_init = Loglevel_info
   \<and> unat (getLogLevel Logger_init) = 2
   \<and> getEnabled Logger_init \<noteq> 0
   \<and> unat (getEnabled Logger_init) = 1
   \<and> m_strm Logger_init = None
   \<and> \<not> valid (m_logEvent Logger_init)
   \<and> log P level s args Logger_init tr = Inr (Logger_init, tr)
   \<and> error P s args Logger_init tr = Inr (Logger_init, tr)
   \<and> info P s args Logger_init tr = Inr (Logger_init, tr)
   \<and> debug P s args Logger_init tr = Inr (Logger_init, tr)"
proof -
  have none: "m_strm Logger_init = None \<and> \<not> valid (m_logEvent Logger_init)"
    by (simp add: Logger_init_def valid_def)
  then have "log P l s args Logger_init tr = Inr (Logger_init, tr)" for l
    by (intro log_blocked) blast
  then show ?thesis
    using none
    by (simp add: error_def info_def debug_def getLogLevel_def getEnabled_def Logger_init_def
          Loglevel_info_def)
qed

theorem fresh_logger_witness:
  "log printf Loglevel_err ''boom'' [] Logger_init [] = Inr (Logger_init, [])
   \<and> getLogLevel Logger_init = 2 \<and> getEnabled Logger_init = 1"
  using fresh_logger_defaults [of printf Loglevel_err "''boom''" "[]" "[]"]
  by (simp add: Loglevel_info_def getEnabled_def Logger_init_def)

text \<open>
  C8. Each mutating operation changes only its own part of the logger: \<^verbatim>\<open>begin(stream)\<close>
  leaves the handler, \<^verbatim>\<open>begin(callback)\<close> leaves the stream, \<^verbatim>\<open>setLogLevel\<close> changes only
  the threshold and \<^verbatim>\<open>setEnabled\<close> only the enabled byte; \<^verbatim>\<open>log\<close> and its wrappers return
  the logger they were given. The two getters return a value and nothing else.
\<close>

theorem operations_change_only_their_own_field:
  "m_logLevel (begin_strm a lg) = m_logLevel lg
   \<and> m_enabled (begin_strm a lg) = m_enabled lg
   \<and> m_logEvent (begin_strm a lg) = m_logEvent lg
   \<and> m_logLevel (begin_ev ev lg) = m_logLevel lg
   \<and> m_enabled (begin_ev ev lg) = m_enabled lg
   \<and> m_strm (begin_ev ev lg) = m_strm lg
   \<and> m_logLevel (begin_strm_ev a ev lg) = m_logLevel lg
   \<and> m_enabled (begin_strm_ev a ev lg) = m_enabled lg
   \<and> m_enabled (setLogLevel level lg) = m_enabled lg
   \<and> m_strm (setLogLevel level lg) = m_strm lg
   \<and> m_logEvent (setLogLevel level lg) = m_logEvent lg
   \<and> m_logLevel (setEnabled en lg) = m_logLevel lg
   \<and> m_strm (setEnabled en lg) = m_strm lg
   \<and> m_logEvent (setEnabled en lg) = m_logEvent lg
   \<and> (\<forall>lg' tr'. log P level s args lg tr = Inr (lg', tr') \<longrightarrow> lg' = lg)
   \<and> (\<forall>lg' tr'. error P s args lg tr = Inr (lg', tr') \<longrightarrow> lg' = lg)
   \<and> (\<forall>lg' tr'. info P s args lg tr = Inr (lg', tr') \<longrightarrow> lg' = lg)
   \<and> (\<forall>lg' tr'. debug P s args lg tr = Inr (lg', tr') \<longrightarrow> lg' = lg)"
proof -
  have keep: "\<forall>lg' tr'. log P l s args lg tr = Inr (lg', tr') \<longrightarrow> lg' = lg" for l
    by (auto simp add: log_def fbind_def split: if_splits sum.splits option.splits prod.splits)
  show ?thesis
    using keep [of level] keep [of Loglevel_err] keep [of Loglevel_info] keep [of Loglevel_debug]
    by (simp add: begin_strm_def begin_ev_def begin_strm_ev_def setLogLevel_def setEnabled_def
          error_def info_def debug_def)
qed

theorem operations_frame_witness:
  "log printf Loglevel_err ''boom'' [] (setEnabled 1 (setLogLevel 3 (begin_strm 7 Logger_init))) []
     = Inr (setEnabled 1 (setLogLevel 3 (begin_strm 7 Logger_init)), [Println 7 ''ERROR: boom''])
   \<and> error printf ''boom'' [] (setEnabled 1 (setLogLevel 3 (begin_strm 7 Logger_init))) []
     = Inr (setEnabled 1 (setLogLevel 3 (begin_strm 7 Logger_init)), [Println 7 ''ERROR: boom''])
   \<and> info printf ''boom'' [] (setEnabled 1 (setLogLevel 3 (begin_strm 7 Logger_init))) []
     = Inr (setEnabled 1 (setLogLevel 3 (begin_strm 7 Logger_init)), [Println 7 ''INFO: boom''])
   \<and> debug printf ''boom'' [] (setEnabled 1 (setLogLevel 3 (begin_strm 7 Logger_init))) []
     = Inr (setEnabled 1 (setLogLevel 3 (begin_strm 7 Logger_init)), [Println 7 ''DEBUG: boom''])
   \<and> setEnabled 1 (setLogLevel 3 (begin_strm 7 Logger_init))
     = \<lparr> m_logLevel = 3, m_enabled = 1, m_strm = Some 7, m_logEvent = None \<rparr>"
proof -
  let ?lg = "setEnabled 1 (setLogLevel 3 (begin_strm 7 Logger_init))"
  have f: "m_enabled ?lg = 1" "m_logLevel ?lg = 3" "m_strm ?lg = Some 7" "m_logEvent ?lg = None"
    by (simp_all add: setEnabled_def setLogLevel_def begin_strm_def Logger_init_def)
  have "log printf Loglevel_err ''boom'' [] ?lg []
      = Inr (?lg, [] @ deliveries ?lg Loglevel_err ''ERROR'' ''boom''
                         (bounded_format printf 248 ''boom'' []))"
    by (rule log_err) (simp_all add: f Loglevel_err_def)
  then have e: "\<exists>tr'. log printf Loglevel_err ''boom'' [] ?lg [] = Inr (?lg, tr')
      \<and> tr' = [Println 7 ''ERROR: boom'']"
    by (simp add: deliveries_def f bounded_format_def NUL_def)
  have "log printf Loglevel_info ''boom'' [] ?lg []
      = Inr (?lg, [] @ deliveries ?lg Loglevel_info ''INFO'' ''boom''
                         (bounded_format printf 249 ''boom'' []))"
    by (rule log_info) (simp_all add: f Loglevel_info_def)
  then have i: "\<exists>tr'. info printf ''boom'' [] ?lg [] = Inr (?lg, tr')
      \<and> tr' = [Println 7 ''INFO: boom'']"
    by (simp add: info_def deliveries_def f bounded_format_def NUL_def)
  have "log printf Loglevel_debug ''boom'' [] ?lg []
      = Inr (?lg, [] @ deliveries ?lg Loglevel_debug ''DEBUG'' ''boom''
                         (bounded_format printf 248 ''boom'' []))"
    by (rule log_debug) (simp_all add: f Loglevel_debug_def)
  then have d: "\<exists>tr'. debug printf ''boom'' [] ?lg [] = Inr (?lg, tr')
      \<and> tr' = [Println 7 ''DEBUG: boom'']"
    by (simp add: debug_def deliveries_def f bounded_format_def NUL_def)
  note frame = operations_change_only_their_own_field
            [where P = printf and level = Loglevel_err and s = "''boom''" and args = "[]"
               and lg = ?lg and tr = "[]"]
  from frame e i d show ?thesis
    by (simp add: error_def setEnabled_def setLogLevel_def begin_strm_def Logger_init_def)
qed

text \<open>
  C9, as the specification states it: for a level outside \<open>{1, 2, 3}\<close> that is let
  through, no case of the \<^verbatim>\<open>switch\<close> matches, so that both the label pointer and the
  prefix index that \<^verbatim>\<open>log\<close> goes on to use are never initialized. The code gives the prefix
  index the initial value 0 where it declares it: at level 0 the switch leaves the index 0,
  and with only a stream attached the call is well defined and writes the message without
  any prefix.
\<close>

theorem unrecognized_level_prefix_index_counterexample:
  "(0 :: Loglevel) \<notin> {Loglevel_err, Loglevel_info, Loglevel_debug}
   \<and> m_enabled (begin_strm 7 Logger_init) \<noteq> 0
   \<and> (0 :: Loglevel) \<le> m_logLevel (begin_strm 7 Logger_init)
   \<and> m_strm (begin_strm 7 Logger_init) = Some 7
   \<and> level_prefix 0 (replicate LOG_BUFFER_SIZE None)
       = Inr (replicate LOG_BUFFER_SIZE None, None, 0)
   \<and> log printf 0 ''boom'' [] (begin_strm 7 Logger_init) []
       = Inr (begin_strm 7 Logger_init, [Println 7 ''boom''])"
proof -
  have u: "(0 :: Loglevel) \<noteq> Loglevel_err" "(0 :: Loglevel) \<noteq> Loglevel_info"
    "(0 :: Loglevel) \<noteq> Loglevel_debug"
    by (simp_all add: Loglevel_err_def Loglevel_info_def Loglevel_debug_def)
  have "log printf 0 ''boom'' [] (begin_strm 7 Logger_init) []
      = Inr (begin_strm 7 Logger_init,
             [] @ [Println 7 (bounded_format printf LOG_BUFFER_SIZE ''boom'' [])])"
    by (rule log_unrecognized_stream [OF u]) (simp_all add: fresh_info)
  then show ?thesis
    using u by (simp add: level_prefix_other fresh_info bounded_format_def LOG_BUFFER_SIZE_def NUL_def)
qed

text \<open>
  C9, amended: for a level outside \<open>{1, 2, 3}\<close> that is let through, no case of the
  \<^verbatim>\<open>switch\<close> matches; the label pointer is never initialized, while the prefix index
  keeps its initial value 0. So a call with a handler attached reads the unset label
  pointer, and a call with only a stream attached writes the formatted message without a
  label prefix. The \<^verbatim>\<open>switch\<close> yields a label exactly for the levels \<^verbatim>\<open>err\<close>, \<^verbatim>\<open>info\<close>
  and \<^verbatim>\<open>debug\<close>.
\<close>

theorem unrecognized_level_leaves_label_unset:
  "(level \<notin> {Loglevel_err, Loglevel_info, Loglevel_debug}
      \<and> m_enabled lg \<noteq> 0 \<and> level \<le> m_logLevel lg \<longrightarrow>
      level_prefix level buf = Inr (buf, None, 0)
      \<and> (m_logEvent lg = Some h \<longrightarrow> log P level s args lg tr = Inl Indeterminate_read)
      \<and> (m_strm lg = Some a \<and> m_logEvent lg = None \<longrightarrow>
           log P level s args lg tr =
             Inr (lg, tr @ [Println a (bounded_format P LOG_BUFFER_SIZE s args)])))
   \<and> ((\<exists>b lab pti. level_prefix level (replicate LOG_BUFFER_SIZE None) = Inr (b, Some lab, pti))
        \<longleftrightarrow> level \<in> {Loglevel_err, Loglevel_info, Loglevel_debug})"
proof (intro conjI impI)
  show "(\<exists>b lab pti. level_prefix level (replicate LOG_BUFFER_SIZE None) = Inr (b, Some lab, pti))
        \<longleftrightarrow> level \<in> {Loglevel_err, Loglevel_info, Loglevel_debug}"
    by (rule level_prefix_label_iff)
next
  assume a: "level \<notin> {Loglevel_err, Loglevel_info, Loglevel_debug}
      \<and> m_enabled lg \<noteq> 0 \<and> level \<le> m_logLevel lg"
  then have u: "level \<noteq> Loglevel_err" "level \<noteq> Loglevel_info" "level \<noteq> Loglevel_debug"
    by simp_all
  from a have g: "m_enabled lg \<noteq> 0" "level \<le> m_logLevel lg"
    by simp_all
  show "level_prefix level buf = Inr (buf, None, 0)"
    using u by (rule level_prefix_other)
  show "log P level s args lg tr = Inl Indeterminate_read" if "m_logEvent lg = Some h"
    using u g that by (rule log_unrecognized_handler)
  show "log P level s args lg tr =
      Inr (lg, tr @ [Println a (bounded_format P LOG_BUFFER_SIZE s args)])"
    if "m_strm lg = Some a \<and> m_logEvent lg = None"
    using that log_unrecognized_stream [OF u g, of a P s args tr] by simp
qed

theorem unrecognized_level_witness:
  "(200 :: Loglevel) \<notin> {Loglevel_err, Loglevel_info, Loglevel_debug}
   \<and> m_enabled (setLogLevel 255 (begin_strm_ev 1 (Some 2) Logger_init)) \<noteq> 0
   \<and> (200 :: Loglevel) \<le> m_logLevel (setLogLevel 255 (begin_strm_ev 1 (Some 2) Logger_init))
   \<and> m_logEvent (setLogLevel 255 (begin_strm_ev 1 (Some 2) Logger_init)) = Some 2
   \<and> log printf 200 ''boom'' [] (setLogLevel 255 (begin_strm_ev 1 (Some 2) Logger_init)) []
       = Inl Indeterminate_read
   \<and> m_enabled (setLogLevel 255 (begin_strm 1 Logger_init)) \<noteq> 0
   \<and> (200 :: Loglevel) \<le> m_logLevel (setLogLevel 255 (begin_strm 1 Logger_init))
   \<and> m_strm (setLogLevel 255 (begin_strm 1 Logger_init)) = Some 1
   \<and> m_logEvent (setLogLevel 255 (begin_strm 1 Logger_init)) = None
   \<and> log printf 200 ''n=%d'' [Int_arg 12] (setLogLevel 255 (begin_strm 1 Logger_init)) []
       = Inr (setLogLevel 255 (begin_strm 1 Logger_init), [Println 1 ''n=12''])"
  using unrecognized_level_leaves_label_unset
          [where level = 200 and lg = "setLogLevel 255 (begin_strm_ev 1 (Some 2) Logger_init)"
             and h = 2 and P = printf and s = "''boom''" and args = "[]" and tr = "[]"]
        unrecognized_level_leaves_label_unset
          [where level = 200 and lg = "setLogLevel 255 (begin_strm 1 Logger_init)"
             and a = 1 and P = printf and s = "''n=%d''" and args = "[Int_arg 12]" and tr = "[]"]
  by (simp add: setLogLevel_def begin_strm_ev_def begin_strm_def Logger_init_def
        Loglevel_err_def Loglevel_info_def Loglevel_debug_def bounded_format_def
        LOG_BUFFER_SIZE_def NUL_def dec_int_def dec_digits.simps)

text \<open>
  C10. \<^verbatim>\<open>setEnabled\<close> stores its byte as it is and \<^verbatim>\<open>getEnabled\<close> returns that very byte,
  not normalized to 0 or 1; the guard of \<^verbatim>\<open>log\<close> takes every nonzero byte for enabled. So
  for every \<open>n \<noteq> 0\<close>, after \<^verbatim>\<open>setEnabled(n)\<close> messages are let through and
  \<^verbatim>\<open>getEnabled\<close> returns \<open>n\<close>.
\<close>

theorem setEnabled_keeps_byte_and_nonzero_enables:
  "getEnabled (setEnabled n lg) = n
   \<and> (n \<noteq> 0 \<and> (level, lab) \<in> {(Loglevel_err, ''ERROR''), (Loglevel_info, ''INFO''),
                                     (Loglevel_debug, ''DEBUG'')}
        \<and> level \<le> m_logLevel lg \<and> (m_strm lg \<noteq> None \<or> valid (m_logEvent lg)) \<longrightarrow>
        (\<exists>calls. calls \<noteq> []
           \<and> calls = deliveries lg level lab s
                       (bounded_format P (LOG_BUFFER_SIZE - length (lab @ '': '')) s args)
           \<and> log P level s args (setEnabled n lg) tr = Inr (setEnabled n lg, tr @ calls)))
   \<and> log P level s args (setEnabled 0 lg) tr = Inr (setEnabled 0 lg, tr)"
proof (intro conjI impI)
  show "getEnabled (setEnabled n lg) = n"
    by (simp add: getEnabled_def setEnabled_def)
  show "log P level s args (setEnabled 0 lg) tr = Inr (setEnabled 0 lg, tr)"
    by (rule log_blocked) (simp add: setEnabled_def)
next
  assume a: "n \<noteq> 0 \<and> (level, lab) \<in> {(Loglevel_err, ''ERROR''), (Loglevel_info, ''INFO''),
                                     (Loglevel_debug, ''DEBUG'')}
        \<and> level \<le> m_logLevel lg \<and> (m_strm lg \<noteq> None \<or> valid (m_logEvent lg))"
  then have lab: "severity_label level = Some lab"
    using labelled_iff [of level lab] by simp
  from a have dst: "m_strm lg \<noteq> None \<or> valid (m_logEvent lg)"
    by simp
  have same: "deliveries (setEnabled n lg) level lab s body = deliveries lg level lab s body" for body
    by (simp add: deliveries_def setEnabled_def)
  have "log P level s args (setEnabled n lg) tr =
      Inr (setEnabled n lg, tr @ deliveries (setEnabled n lg) level lab s
             (bounded_format P (LOG_BUFFER_SIZE - (length lab + 2)) s args))"
    using a by (intro log_recognized [OF lab]) (simp_all add: setEnabled_def)
  then show "\<exists>calls. calls \<noteq> []
           \<and> calls = deliveries lg level lab s
                       (bounded_format P (LOG_BUFFER_SIZE - length (lab @ '': '')) s args)
           \<and> log P level s args (setEnabled n lg) tr = Inr (setEnabled n lg, tr @ calls)"
    using deliveries_nonempty [OF dst] by (simp add: same)
qed

theorem setEnabled_byte_witness:
  "(254 :: u8) \<noteq> 0
   \<and> (Loglevel_info, ''INFO'') \<in> {(Loglevel_err, ''ERROR''), (Loglevel_info, ''INFO''),
                                    (Loglevel_debug, ''DEBUG'')}
   \<and> Loglevel_info \<le> m_logLevel (begin_strm 7 Logger_init)
   \<and> m_strm (begin_strm 7 Logger_init) = Some 7
   \<and> getEnabled (setEnabled 254 (begin_strm 7 Logger_init)) = 254
   \<and> log printf Loglevel_info ''up'' [] (setEnabled 254 (begin_strm 7 Logger_init)) []
       = Inr (setEnabled 254 (begin_strm 7 Logger_init), [Println 7 ''INFO: up''])"
  using setEnabled_keeps_byte_and_nonzero_enables
          [where n = 254 and level = Loglevel_info and lab = "''INFO''"
             and lg = "begin_strm 7 Logger_init" and P = printf and s = "''up''"
             and args = "[]" and tr = "[]"]
  by (simp add: begin_strm_def Logger_init_def Loglevel_info_def setEnabled_def
        deliveries_def bounded_format_def LOG_BUFFER_SIZE_def NUL_def)

end
